theory Spec2Isabelle
  imports Complex_Main "HOL-Library.Sublist"
begin

section \<open>JavaScript values and strings\<close>

text \<open>
  A JavaScript string is modelled as a HOL \<open>string\<close>: one \<open>char\<close> per code unit, for
  code units below 256 (the Latin-1 range). A JavaScript number is modelled by the exact
  rational it denotes, with the three non-finite values added; the model agrees with
  IEEE doubles on all integers of magnitude up to \<open>2^53\<close>, which covers every database id.
\<close>

datatype jsnum = Fin rat | NaN | PosInf | NegInf

datatype jsval =
    JUndefined
  | JNull
  | JBool bool
  | JNum jsnum
  | JStr string
  | JArr "jsval list"
  | JObj "(string \<times> jsval) list"

text \<open>A thrown value: an \<open>Error\<close> object with its message, or anything else.\<close>

datatype thrown = ErrorObj string | NonError

text \<open>The white space that \<open>String.prototype.trim\<close> and \<open>parseInt\<close> strip (Latin-1 part).\<close>

definition is_ws :: "char \<Rightarrow> bool" where
  "is_ws c = (of_char c \<in> {9, 10, 11, 12, 13, 32, 160 :: nat})"

definition trimStart :: "string \<Rightarrow> string" where
  "trimStart s = dropWhile is_ws s"

definition trimEnd :: "string \<Rightarrow> string" where
  "trimEnd s = rev (dropWhile is_ws (rev s))"

definition trim :: "string \<Rightarrow> string" where
  "trim s = trimEnd (trimStart s)"

text \<open>\<open>String.prototype.toLowerCase\<close> on Latin-1 code units.\<close>

definition lower_char :: "char \<Rightarrow> char" where
  "lower_char c =
     (let n = (of_char c :: nat) in
      if (65 \<le> n \<and> n \<le> 90) \<or> (192 \<le> n \<and> n \<le> 222 \<and> n \<noteq> 215)
      then char_of (n + 32) else c)"

definition toLowerCase :: "string \<Rightarrow> string" where
  "toLowerCase s = map lower_char s"

text \<open>\<open>s.includes(sub)\<close>: \<open>sub\<close> occurs in \<open>s\<close> as a contiguous substring.\<close>

fun str_includes :: "string \<Rightarrow> string \<Rightarrow> bool" where
  "str_includes [] sub = (sub = [])"
| "str_includes (c # cs) sub = (prefix sub (c # cs) \<or> str_includes cs sub)"

definition startsWith :: "string \<Rightarrow> string \<Rightarrow> bool" where
  "startsWith s p = prefix p s"

text \<open>\<open>s.split(sep)\<close> for a one-character separator: never returns the empty list.\<close>

fun split_on :: "char \<Rightarrow> string \<Rightarrow> string list" where
  "split_on sep [] = [[]]"
| "split_on sep (c # cs) =
     (if c = sep then [] # split_on sep cs
      else (case split_on sep cs of
              [] \<Rightarrow> [[c]]
            | f # fs \<Rightarrow> (c # f) # fs))"

text \<open>\<open>fields.join(sep)\<close>.\<close>

fun join :: "string \<Rightarrow> string list \<Rightarrow> string" where
  "join sep [] = []"
| "join sep [f] = f"
| "join sep (f # g # fs) = f @ sep @ join sep (g # fs)"

subsection \<open>parseInt\<close>

definition is_digit :: "char \<Rightarrow> bool" where
  "is_digit c = (48 \<le> (of_char c :: nat) \<and> (of_char c :: nat) \<le> 57)"

definition digit_val :: "char \<Rightarrow> nat" where
  "digit_val c = of_char c - 48"

text \<open>The value of a digit string, most significant digit first.\<close>

definition digits_val :: "string \<Rightarrow> nat" where
  "digits_val ds = foldl (\<lambda>acc c. 10 * acc + digit_val c) 0 ds"

text \<open>
  \<open>parseInt(s, 10)\<close> as ECMAScript defines it: strip leading white space, read an
  optional sign, take the longest run of decimal digits; \<open>NaN\<close> when that run is empty.
  Everything after the digits is ignored.
\<close>

definition parseInt10 :: "string \<Rightarrow> jsnum" where
  "parseInt10 s =
     (let t = trimStart s;
          neg = (t \<noteq> [] \<and> hd t = CHR ''-'');
          u = (if t \<noteq> [] \<and> (hd t = CHR ''-'' \<or> hd t = CHR ''+'') then tl t else t);
          z = takeWhile is_digit u
      in if z = [] then NaN
         else Fin (if neg then - of_nat (digits_val z) else of_nat (digits_val z)))"

section \<open>Id validation (utils/validation.ts)\<close>

definition isNaN :: "jsnum \<Rightarrow> bool" where
  "isNaN n = (n = NaN)"

fun validateId :: "jsval \<Rightarrow> jsnum option" where
  "validateId (JNum n) = Some n"
| "validateId (JStr s) = (let parsed = parseInt10 s in if isNaN parsed then None else Some parsed)"
| "validateId _ = None"

text \<open>\<open>ids.map(id => validateId(id)).filter(id => id !== null)\<close>\<close>

definition validateIds :: "jsval list \<Rightarrow> jsnum list" where
  "validateIds ids = map the (filter (\<lambda>r. r \<noteq> None) (map validateId ids))"

definition validateUserId :: "jsval \<Rightarrow> jsnum option" where
  "validateUserId userId = validateId userId"

section \<open>String conversion of values\<close>

text \<open>
  \<open>String(v)\<close> for a value that arrived as JSON. How a number prints
  (\<open>Number.prototype.toString\<close>) is a parameter \<open>nts\<close> of the model. An array prints its
  elements joined by commas, with \<open>null\<close> and \<open>undefined\<close> elements as empty strings; a
  plain object prints as \<open>[object Object]\<close>.
\<close>

fun js_String :: "(jsnum \<Rightarrow> string) \<Rightarrow> jsval \<Rightarrow> string" where
  "js_String nts JUndefined = ''undefined''"
| "js_String nts JNull = ''null''"
| "js_String nts (JBool b) = (if b then ''true'' else ''false'')"
| "js_String nts (JNum n) = nts n"
| "js_String nts (JStr s) = s"
| "js_String nts (JArr xs) =
     join '','' (map (\<lambda>x. case x of JUndefined \<Rightarrow> [] | JNull \<Rightarrow> [] | _ \<Rightarrow> js_String nts x) xs)"
| "js_String nts (JObj kvs) = ''[object Object]''"




text \<open>A count printed inside a template literal: its decimal digits.\<close>

fun show_nat :: "nat \<Rightarrow> string" where
  "show_nat n =
     (if n < 10 then [char_of (48 + n)]
      else show_nat (n div 10) @ [char_of (48 + n mod 10)])"

declare show_nat.simps [simp del]

section \<open>CSV parsing (utils/csv-parser.ts)\<close>

text \<open>
  The loop of \<open>parseCSVLine\<close> over the remaining characters, with the fields pushed so
  far, the field being read and the quote flag.
\<close>

fun parseCSVLine_loop :: "string \<Rightarrow> string list \<Rightarrow> string \<Rightarrow> bool \<Rightarrow> string list" where
  "parseCSVLine_loop [] result current inQuotes = result @ [trim current]"
| "parseCSVLine_loop (char # rest) result current inQuotes =
     (if char = CHR 0x22 then parseCSVLine_loop rest result current (\<not> inQuotes)
      else if char = CHR '','' \<and> \<not> inQuotes
        then parseCSVLine_loop rest (result @ [trim current]) [] inQuotes
      else parseCSVLine_loop rest result (current @ [char]) inQuotes)"

definition parseCSVLine :: "string \<Rightarrow> string list" where
  "parseCSVLine line = parseCSVLine_loop line [] [] False"

definition parseCSVFile :: "string \<Rightarrow> string list" where
  "parseCSVFile content = filter (\<lambda>line. length (trim line) > 0) (split_on (CHR 0x0A) content)"

text \<open>\<open>xs.findIndex(p)\<close>, with \<open>None\<close> for \<open>-1\<close>.\<close>

fun findIndex :: "('a \<Rightarrow> bool) \<Rightarrow> 'a list \<Rightarrow> nat option" where
  "findIndex p [] = None"
| "findIndex p (x # xs) =
     (if p x then Some 0 else (case findIndex p xs of None \<Rightarrow> None | Some i \<Rightarrow> Some (Suc i)))"

record csv_format =
  startIndex :: nat
  columnMap :: "string \<rightharpoonup> nat"

definition detectCSVFormat :: "string list \<Rightarrow> string list \<Rightarrow> csv_format" where
  "detectCSVFormat lines expectedColumns =
     (case lines of
        [] \<Rightarrow> \<lparr>startIndex = 0, columnMap = Map.empty\<rparr>
      | first # _ \<Rightarrow>
          (let headerRow = toLowerCase first in
           if list_ex (\<lambda>col. str_includes headerRow col) expectedColumns
           then
             (let headers = map (\<lambda>h. toLowerCase (trim h)) (parseCSVLine headerRow) in
              \<lparr>startIndex = 1,
               columnMap =
                 foldl (\<lambda>m col. case findIndex (\<lambda>h. h = col) headers of
                                   None \<Rightarrow> m
                                 | Some index \<Rightarrow> m(col \<mapsto> index))
                   Map.empty expectedColumns\<rparr>)
           else \<lparr>startIndex = 0, columnMap = Map.empty\<rparr>))"

text \<open>\<open>str.replace(/"/g, '""')\<close>\<close>

definition double_quotes :: "string \<Rightarrow> string" where
  "double_quotes s = concat (map (\<lambda>c. if c = CHR 0x22 then [CHR 0x22, CHR 0x22] else [c]) s)"

definition escapeCsvField :: "(jsnum \<Rightarrow> string) \<Rightarrow> jsval \<Rightarrow> string" where
  "escapeCsvField nts field =
     (if field = JNull \<or> field = JUndefined then []
      else
        (let str = js_String nts field in
         if CHR '','' \<in> set str \<or> CHR 0x22 \<in> set str \<or> CHR 0x0A \<in> set str
         then [CHR 0x22] @ double_quotes str @ [CHR 0x22]
         else str))"

section \<open>Batch operations (utils/batch-operations.ts)\<close>



definition validateBatchIds :: "jsval list \<Rightarrow> jsnum list" where
  "validateBatchIds ids = validateIds ids"





section \<open>Batch routes (registerBatchRoutes)\<close>

record http_response =
  resp_status :: nat
  resp_body :: "(string \<times> jsval) list"

definition message_response :: "nat \<Rightarrow> string \<Rightarrow> http_response" where
  "message_response code msg = \<lparr>resp_status = code, resp_body = [(''message'', JStr msg)]\<rparr>"

text \<open>
  The loop of \<open>DELETE /api/filaments/batch\<close>. The repository's \<open>deleteFilament\<close> is a
  parameter: it answers whether a row was removed, or throws; a throw is logged and the
  loop goes on.
\<close>

fun delete_loop ::
  "(jsnum \<Rightarrow> 'u \<Rightarrow> 's \<Rightarrow> (thrown + bool) \<times> 's) \<Rightarrow> 'u \<Rightarrow> jsnum list \<Rightarrow> nat \<Rightarrow> 's \<Rightarrow> nat \<times> 's" where
  "delete_loop deleteFilament userId [] deletedCount s = (deletedCount, s)"
| "delete_loop deleteFilament userId (i # ids) deletedCount s =
     (case deleteFilament i userId s of
        (Inr ok, s') \<Rightarrow>
          delete_loop deleteFilament userId ids (if ok then Suc deletedCount else deletedCount) s'
      | (Inl err, s') \<Rightarrow> delete_loop deleteFilament userId ids deletedCount s')"

definition batch_delete ::
  "(jsnum \<Rightarrow> 'u \<Rightarrow> 's \<Rightarrow> (thrown + bool) \<times> 's) \<Rightarrow> 'u \<Rightarrow> jsval \<Rightarrow> 's \<Rightarrow> http_response \<times> 's" where
  "batch_delete deleteFilament userId ids s =
     (case ids of
        JArr xs \<Rightarrow>
          if xs = [] then
            (message_response 400 ''Invalid request: ids must be a non-empty array'', s)
          else
            (let validIds = validateBatchIds xs in
             if validIds = [] then (message_response 400 ''No valid filament IDs provided'', s)
             else
               (case delete_loop deleteFilament userId validIds 0 s of
                  (deletedCount, s') \<Rightarrow>
                    (\<lparr>resp_status = 200,
                      resp_body =
                        [(''message'',
                          JStr (''Successfully deleted '' @ show_nat deletedCount @ '' filaments'')),
                         (''deletedCount'', JNum (Fin (of_nat deletedCount)))]\<rparr>, s')))
      | _ \<Rightarrow> (message_response 400 ''Invalid request: ids must be a non-empty array'', s))"

text \<open>
  The columns of a stored filament that these routes read, and a table of them.
\<close>

record filament =
  fil_id :: jsnum
  fil_userId :: jsnum
  fil_name :: string

text \<open>
  Modelled from the spec: the repository's \<open>delete(id, ownerId) -> bool\<close> (the storage
  module lies outside the verified sources). It removes the row with that id owned by
  that user and reports whether such a row existed.
\<close>

definition mem_deleteFilament :: "jsnum \<Rightarrow> jsnum \<Rightarrow> filament list \<Rightarrow> (thrown + bool) \<times> filament list" where
  "mem_deleteFilament i userId rows =
     (Inr (list_ex (\<lambda>f. fil_id f = i \<and> fil_userId f = userId) rows),
      filter (\<lambda>f. \<not> (fil_id f = i \<and> fil_userId f = userId)) rows)"

subsection \<open>The partial-field patch of each update route\<close>









section \<open>CSV import (registerSettingsRoutes, registerFilamentRoutes)\<close>

text \<open>
  The import branch of each \<open>POST\<close> route, entered when the query asks for a CSV import
  and the body carries a non-empty \<open>csvData\<close>, here a string. Every row is handled inside
  its own \<open>try\<close>, so what a row throws is counted and the loop goes on. The repository and
  the schemas are parameters of the model: a list operation reads the state, a create
  operation may change it, and each returns its value or what it threw.
\<close>

record ImportResult =
  created :: nat
  duplicates :: nat
  errors :: nat

definition no_results :: ImportResult where
  "no_results = \<lparr>created = 0, duplicates = 0, errors = 0\<rparr>"

definition inc_created :: "ImportResult \<Rightarrow> ImportResult" where
  "inc_created r = r\<lparr>created := created r + 1\<rparr>"

definition inc_duplicates :: "ImportResult \<Rightarrow> ImportResult" where
  "inc_duplicates r = r\<lparr>duplicates := duplicates r + 1\<rparr>"

definition inc_errors :: "ImportResult \<Rightarrow> ImportResult" where
  "inc_errors r = r\<lparr>errors := errors r + 1\<rparr>"

definition includes_any :: "string \<Rightarrow> string list \<Rightarrow> bool" where
  "includes_any s keywords = list_ex (\<lambda>k. str_includes s k) keywords"

text \<open>
  The start index of the settings imports: 1 when the lower-cased first line includes
  one of the header keywords, 0 otherwise. (\<open>split\<close> never returns an empty array, so
  there is a first line.)
\<close>

definition keyword_start :: "string list \<Rightarrow> string list \<Rightarrow> nat" where
  "keyword_start keywords csvLines =
     (if includes_any (toLowerCase (hd csvLines)) keywords then 1 else 0)"

text \<open>
  The tail of a row of the manufacturer, material, diameter and storage-location
  imports, inside the row's \<open>try\<close>: list the stored records afresh, count a duplicate
  when one has the same value ignoring case, otherwise validate and create. The
  repository's list and create operations and the schema are parameters; each may throw,
  and the row's \<open>catch\<close> counts an error.
\<close>

definition create_unless_stored ::
  "('s \<Rightarrow> thrown + string list) \<Rightarrow> (string \<Rightarrow> thrown + 'd) \<Rightarrow>
   ('d \<Rightarrow> 's \<Rightarrow> (thrown + 'e) \<times> 's) \<Rightarrow> string \<Rightarrow> ImportResult \<times> 's \<Rightarrow> ImportResult \<times> 's" where
  "create_unless_stored getAll validate create v rs =
     (case rs of (r, s) \<Rightarrow>
        (case getAll s of
           Inl e \<Rightarrow> (inc_errors r, s)
         | Inr existing \<Rightarrow>
             if list_ex (\<lambda>m. toLowerCase m = toLowerCase v) existing
             then (inc_duplicates r, s)
             else
               (case validate v of
                  Inl e \<Rightarrow> (inc_errors r, s)
                | Inr validatedData \<Rightarrow>
                    (case create validatedData s of
                       (Inl e, s') \<Rightarrow> (inc_errors r, s')
                     | (Inr ent, s') \<Rightarrow> (inc_created r, s')))))"

subsection \<open>Manufacturers and materials\<close>

text \<open>
  The two imports differ only in the header keywords. \<open>name_header\<close> gives the start
  index and the index of the name column.
\<close>

definition name_header :: "string list \<Rightarrow> string list \<Rightarrow> nat \<times> nat" where
  "name_header keywords csvLines =
     (let headerRow = toLowerCase (hd csvLines) in
      if includes_any headerRow keywords then
        (1, if str_includes headerRow '','' then
              (case findIndex (\<lambda>h. includes_any h keywords) (split_on (CHR '','') headerRow) of
                 None \<Rightarrow> 0
               | Some i \<Rightarrow> i)
            else 0)
      else (0, 0))"

text \<open>
  \<open>line.includes(',') ? line.split(',')[nameColumnIndex].trim() : line.trim()\<close>;
  a column index beyond the fields of the line reads \<open>undefined\<close>, whose \<open>trim\<close> throws.
\<close>

definition extract_name :: "nat \<Rightarrow> string \<Rightarrow> thrown + string" where
  "extract_name nameColumnIndex line =
     (if str_includes line '','' then
        (let parts = split_on (CHR '','') line in
         if nameColumnIndex < length parts then Inr (trim (parts ! nameColumnIndex))
         else Inl (ErrorObj ''TypeError''))
      else Inr (trim line))"

definition name_row ::
  "('s \<Rightarrow> thrown + string list) \<Rightarrow> (string \<Rightarrow> thrown + 'd) \<Rightarrow>
   ('d \<Rightarrow> 's \<Rightarrow> (thrown + 'e) \<times> 's) \<Rightarrow> nat \<Rightarrow> string \<Rightarrow> ImportResult \<times> 's \<Rightarrow> ImportResult \<times> 's" where
  "name_row getAll validate create nameColumnIndex raw rs =
     (let line = trim raw in
      if line = [] then rs
      else
        (case extract_name nameColumnIndex line of
           Inl e \<Rightarrow> (inc_errors (fst rs), snd rs)
         | Inr nm \<Rightarrow>
             if nm = [] \<or> trim nm = [] then rs
             else create_unless_stored getAll validate create nm rs))"

definition name_csv_import ::
  "string list \<Rightarrow> ('s \<Rightarrow> thrown + string list) \<Rightarrow> (string \<Rightarrow> thrown + 'd) \<Rightarrow>
   ('d \<Rightarrow> 's \<Rightarrow> (thrown + 'e) \<times> 's) \<Rightarrow> string \<Rightarrow> 's \<Rightarrow> ImportResult \<times> 's" where
  "name_csv_import keywords getAll validate create csvData s =
     (let csvLines = split_on (CHR 0x0A) csvData in
      case name_header keywords csvLines of
        (start, nameColumnIndex) \<Rightarrow>
          foldl (\<lambda>rs raw. name_row getAll validate create nameColumnIndex raw rs)
            (no_results, s) (drop start csvLines))"

definition manufacturers_import ::
  "('s \<Rightarrow> thrown + string list) \<Rightarrow> (string \<Rightarrow> thrown + 'd) \<Rightarrow>
   ('d \<Rightarrow> 's \<Rightarrow> (thrown + 'e) \<times> 's) \<Rightarrow> string \<Rightarrow> 's \<Rightarrow> ImportResult \<times> 's" where
  "manufacturers_import = name_csv_import [''name'', ''hersteller'', ''vendor'']"


subsection \<open>Diameters and storage locations\<close>





subsection \<open>Colors\<close>

record color =
  color_name :: string
  color_code :: string

text \<open>\<open>s.replace(/"/g, '')\<close>\<close>

definition strip_quotes :: "string \<Rightarrow> string" where
  "strip_quotes s = filter (\<lambda>c. c \<noteq> CHR 0x22) s"

text \<open>The name and the code of a row, from its parsed values; \<open>None\<close> with fewer than two.\<close>

definition color_name_code :: "string list \<Rightarrow> (string \<times> string) option" where
  "color_name_code values =
     (if length values \<ge> 3 then
        (let brand = strip_quotes (trim (values ! 0));
             colorName = strip_quotes (trim (values ! 1))
         in Some (colorName @ '' ('' @ brand @ '')'', strip_quotes (trim (values ! 2))))
      else if length values \<ge> 2 then
        Some (strip_quotes (trim (values ! 0)), strip_quotes (trim (values ! 1)))
      else None)"

definition with_hash :: "string \<Rightarrow> string" where
  "with_hash code = (if startsWith code ''#'' then code else ''#'' @ code)"

definition color_row ::
  "color list \<Rightarrow> (color \<Rightarrow> thrown + 'd) \<Rightarrow> ('d \<Rightarrow> 's \<Rightarrow> (thrown + 'e) \<times> 's) \<Rightarrow>
   string \<Rightarrow> ImportResult \<times> 's \<Rightarrow> ImportResult \<times> 's" where
  "color_row existingColors validate createColor raw rs =
     (let line = trim raw in
      if line = [] then rs
      else
        (case color_name_code (parseCSVLine line) of
           None \<Rightarrow> (inc_errors (fst rs), snd rs)
         | Some (nm, code0) \<Rightarrow>
             if nm = [] \<or> code0 = [] then (inc_errors (fst rs), snd rs)
             else
               (let code = with_hash code0 in
                if list_ex (\<lambda>c. toLowerCase (color_name c) = toLowerCase nm \<and>
                                 toLowerCase (color_code c) = toLowerCase code) existingColors
                then (inc_duplicates (fst rs), snd rs)
                else
                  (case validate \<lparr>color_name = nm, color_code = code\<rparr> of
                     Inl e \<Rightarrow> (inc_errors (fst rs), snd rs)
                   | Inr validatedData \<Rightarrow>
                       (case createColor validatedData (snd rs) of
                          (Inl e, s') \<Rightarrow> (inc_errors (fst rs), s')
                        | (Inr ent, s') \<Rightarrow> (inc_created (fst rs), s'))))))"

text \<open>
  The stored colors are read once, before the loop; when that read throws, the route
  answers 500 (\<open>Inl\<close>) and returns no counts.
\<close>

definition colors_import ::
  "('s \<Rightarrow> thrown + color list) \<Rightarrow> (color \<Rightarrow> thrown + 'd) \<Rightarrow>
   ('d \<Rightarrow> 's \<Rightarrow> (thrown + 'e) \<times> 's) \<Rightarrow> string \<Rightarrow> 's \<Rightarrow> (thrown + ImportResult) \<times> 's" where
  "colors_import getColors validate createColor csvData s =
     (let csvLines = split_on (CHR 0x0A) csvData;
          start = keyword_start [''name'', ''brand''] csvLines
      in case getColors s of
           Inl e \<Rightarrow> (Inl e, s)
         | Inr existingColors \<Rightarrow>
             (case foldl (\<lambda>rs raw. color_row existingColors validate createColor raw rs)
                     (no_results, s) (drop start csvLines) of
                (r, s') \<Rightarrow> (Inr r, s')))"

subsection \<open>Filaments\<close>

text \<open>
  \<open>parseInt(s)\<close> with no radix: as \<open>parseInt10\<close>, except that a \<open>0x\<close> or \<open>0X\<close> after the
  sign switches to hexadecimal digits.
\<close>

definition is_hex_digit :: "char \<Rightarrow> bool" where
  "is_hex_digit c =
     (let n = (of_char c :: nat) in
      (48 \<le> n \<and> n \<le> 57) \<or> (65 \<le> n \<and> n \<le> 70) \<or> (97 \<le> n \<and> n \<le> 102))"

definition hex_digit_val :: "char \<Rightarrow> nat" where
  "hex_digit_val c =
     (let n = (of_char c :: nat) in
      if n \<le> 57 then n - 48 else if n \<le> 70 then n - 55 else n - 87)"

definition parseInt_auto :: "string \<Rightarrow> jsnum" where
  "parseInt_auto s =
     (let t = trimStart s;
          neg = (t \<noteq> [] \<and> hd t = CHR ''-'');
          u = (if t \<noteq> [] \<and> (hd t = CHR ''-'' \<or> hd t = CHR ''+'') then tl t else t);
          hex = (take 2 u = ''0x'' \<or> take 2 u = ''0X'');
          z = (if hex then takeWhile is_hex_digit (drop 2 u) else takeWhile is_digit u);
          v = (if hex then foldl (\<lambda>acc c. 16 * acc + hex_digit_val c) 0 z else digits_val z)
      in if z = [] then NaN
         else Fin (if neg then - of_nat v else of_nat v))"

record 'u InsertFilament =
  userId :: 'u
  name :: string
  manufacturer :: string
  material :: string
  colorName :: string
  colorCode :: string
  printTemp :: string
  diameter :: "string option"
  totalWeight :: string
  remainingPercentage :: string
  purchaseDate :: "string option"
  purchasePrice :: "string option"
  status :: "string option"
  spoolType :: "string option"
  dryerCount :: jsnum
  lastDryingDate :: "string option"
  storageLocation :: string

definition expectedColumns :: "string list" where
  "expectedColumns =
     [''name'', ''manufacturer'', ''material'', ''colorname'', ''colorcode'',
      ''diameter'', ''printtemp'', ''totalweight'', ''remainingpercentage'',
      ''purchasedate'', ''purchaseprice'', ''status'', ''spooltype'',
      ''dryercount'', ''lastdryingdate'', ''storagelocation'']"

text \<open>\<open>values[i] || ''\<close>\<close>

definition value_or_empty :: "string list \<Rightarrow> nat \<Rightarrow> string" where
  "value_or_empty values i = (if i < length values then values ! i else [])"

definition getValue :: "csv_format \<Rightarrow> string list \<Rightarrow> string \<Rightarrow> nat \<Rightarrow> string" where
  "getValue fmt values columnName defaultIndex =
     (if startIndex fmt = 1 \<and> columnMap fmt columnName \<noteq> None
      then value_or_empty values (the (columnMap fmt columnName))
      else value_or_empty values defaultIndex)"

text \<open>\<open>x ? x : undefined\<close> on a string.\<close>

definition or_undefined :: "string \<Rightarrow> string option" where
  "or_undefined x = (if x = [] then None else Some x)"

definition filament_insertData :: "'u \<Rightarrow> csv_format \<Rightarrow> string list \<Rightarrow> 'u InsertFilament" where
  "filament_insertData req_userId fmt values =
     (let totalWeight = getValue fmt values ''totalweight'' 7;
          remainingPercentage = getValue fmt values ''remainingpercentage'' 8;
          dryerCount = getValue fmt values ''dryercount'' 13
      in \<lparr>userId = req_userId,
          name = getValue fmt values ''name'' 0,
          manufacturer = getValue fmt values ''manufacturer'' 1,
          material = getValue fmt values ''material'' 2,
          colorName = getValue fmt values ''colorname'' 3,
          colorCode = getValue fmt values ''colorcode'' 4,
          printTemp = getValue fmt values ''printtemp'' 6,
          diameter = or_undefined (getValue fmt values ''diameter'' 5),
          totalWeight = (if totalWeight = [] then ''1'' else totalWeight),
          remainingPercentage = (if remainingPercentage = [] then ''100'' else remainingPercentage),
          purchaseDate = or_undefined (getValue fmt values ''purchasedate'' 9),
          purchasePrice = or_undefined (getValue fmt values ''purchaseprice'' 10),
          status = or_undefined (getValue fmt values ''status'' 11),
          spoolType = or_undefined (getValue fmt values ''spooltype'' 12),
          dryerCount = (if dryerCount = [] then Fin 0 else parseInt_auto dryerCount),
          lastDryingDate = or_undefined (getValue fmt values ''lastdryingdate'' 14),
          storageLocation = getValue fmt values ''storagelocation'' 15\<rparr>)"

definition filament_row ::
  "'u \<Rightarrow> csv_format \<Rightarrow> filament list \<Rightarrow> ('u InsertFilament \<Rightarrow> 's \<Rightarrow> (thrown + 'e) \<times> 's) \<Rightarrow>
   string \<Rightarrow> ImportResult \<times> 's \<Rightarrow> ImportResult \<times> 's" where
  "filament_row req_userId fmt existingFilaments createFilament raw rs =
     (let line = trim raw in
      if line = [] then rs
      else
        (let values = parseCSVLine line;
             nm = getValue fmt values ''name'' 0;
             mat = getValue fmt values ''material'' 2;
             cname = getValue fmt values ''colorname'' 3
         in
         if nm = [] \<or> mat = [] \<or> cname = [] then (inc_errors (fst rs), snd rs)
         else if list_ex (\<lambda>f. toLowerCase (fil_name f) = toLowerCase nm) existingFilaments
         then (inc_duplicates (fst rs), snd rs)
         else
           (case createFilament (filament_insertData req_userId fmt values) (snd rs) of
              (Inl e, s') \<Rightarrow> (inc_errors (fst rs), s')
            | (Inr ent, s') \<Rightarrow> (inc_created (fst rs), s'))))"

text \<open>
  The stored filaments of the user are read once, before the loop; when that read
  throws, the route answers 500 (\<open>Inl\<close>) and returns no counts.
\<close>

definition filaments_import ::
  "('u \<Rightarrow> 's \<Rightarrow> thrown + filament list) \<Rightarrow> ('u InsertFilament \<Rightarrow> 's \<Rightarrow> (thrown + 'e) \<times> 's) \<Rightarrow>
   'u \<Rightarrow> string \<Rightarrow> 's \<Rightarrow> (thrown + ImportResult) \<times> 's" where
  "filaments_import getFilaments createFilament req_userId csvData s =
     (let csvLines = filter (\<lambda>line. length (trim line) > 0) (split_on (CHR 0x0A) csvData);
          fmt = detectCSVFormat csvLines expectedColumns
      in case getFilaments req_userId s of
           Inl e \<Rightarrow> (Inl e, s)
         | Inr existingFilaments \<Rightarrow>
             (case foldl (\<lambda>rs raw. filament_row req_userId fmt existingFilaments createFilament raw rs)
                     (no_results, s) (drop (startIndex fmt) csvLines) of
                (r, s') \<Rightarrow> (Inr r, s')))"

text \<open>The rows an import has to account for: the non-blank lines after the header.\<close>

definition data_rows :: "nat \<Rightarrow> string list \<Rightarrow> string list" where
  "data_rows start csvLines = filter (\<lambda>line. trim line \<noteq> []) (drop start csvLines)"

section \<open>A repository in memory\<close>

text \<open>
  The storage module and the schemas lie outside the verified sources; the imports and
  the batch routes take their operations as parameters. The definitions of this section
  instantiate those parameters in the examples.
\<close>

text \<open>
  Modelled from the spec: the repository's \<open>list() -> entities\<close>. The table is the list
  of its records.
\<close>

definition mem_list :: "'a list \<Rightarrow> thrown + 'a list" where
  "mem_list rows = Inr rows"

text \<open>
  Modelled from the spec: the schema-validation contract, for a schema that accepts
  the draft and returns it.
\<close>

definition accept :: "'a \<Rightarrow> thrown + 'a" where
  "accept draft = Inr draft"

text \<open>
  Modelled from the spec: the repository's \<open>create(draft) -> entity\<close>, which appends the
  record to the table.
\<close>

definition mem_create :: "'a \<Rightarrow> 'a list \<Rightarrow> (thrown + 'a) \<times> 'a list" where
  "mem_create draft rows = (Inr draft, rows @ [draft])"

text \<open>
  Modelled from the spec: the repository's \<open>list()\<close> for filaments, scoped to their
  owner.
\<close>

definition mem_getFilaments :: "jsnum \<Rightarrow> filament list \<Rightarrow> thrown + filament list" where
  "mem_getFilaments uid rows = Inr (filter (\<lambda>f. fil_userId f = uid) rows)"

text \<open>
  Modelled from the spec: the repository's \<open>create(draft) -> entity\<close> for filaments; the
  new row gets the next id.
\<close>

definition mem_createFilament ::
  "jsnum InsertFilament \<Rightarrow> filament list \<Rightarrow> (thrown + filament) \<times> filament list" where
  "mem_createFilament draft rows =
     (let f = \<lparr>fil_id = Fin (of_nat (length rows) + 1), fil_userId = userId draft,
                fil_name = name draft\<rparr>
      in (Inr f, rows @ [f]))"

text \<open>
  Number formatting and parsing restricted to what the examples use: a natural number
  prints as its decimal digits, and a digit string reads as that number.
\<close>

definition show_count :: "jsnum \<Rightarrow> string" where
  "show_count n =
     (case n of Fin q \<Rightarrow> show_nat (nat \<lfloor>q\<rfloor>) | NaN \<Rightarrow> ''NaN''
      | PosInf \<Rightarrow> ''Infinity'' | NegInf \<Rightarrow> ''-Infinity'')"


section \<open>Notions of the specification\<close>




text \<open>
  The specification's steps 4 to 6 of the import pipeline for a color whose name and
  code are known: a duplicate when a record of the index has that name and that code,
  ignoring case; otherwise an error when the schema rejects the draft or the create
  throws, and a creation when it succeeds.
\<close>

definition color_outcome ::
  "color list \<Rightarrow> (color \<Rightarrow> thrown + 'd) \<Rightarrow> ('d \<Rightarrow> 's \<Rightarrow> (thrown + 'e) \<times> 's) \<Rightarrow>
   string \<Rightarrow> string \<Rightarrow> ImportResult \<times> 's \<Rightarrow> ImportResult \<times> 's" where
  "color_outcome index validate create nm code rs =
     (if list_ex (\<lambda>c. toLowerCase (color_name c) = toLowerCase nm \<and>
                      toLowerCase (color_code c) = toLowerCase code) index
      then (inc_duplicates (fst rs), snd rs)
      else
        (case validate \<lparr>color_name = nm, color_code = code\<rparr> of
           Inl e \<Rightarrow> (inc_errors (fst rs), snd rs)
         | Inr draft \<Rightarrow>
             (case create draft (snd rs) of
                (Inl e, s') \<Rightarrow> (inc_errors (fst rs), s')
              | (Inr ent, s') \<Rightarrow> (inc_created (fst rs), s'))))"









text \<open>The rows an import result accounts for.\<close>

definition accounted :: "ImportResult \<Rightarrow> nat" where
  "accounted r = created r + duplicates r + errors r"

section \<open>Id validation: results\<close>



















section \<open>Batch operations: results\<close>





section \<open>CSV parsing and format detection: results\<close>

lemma str_includes_iff: "str_includes s sub \<longleftrightarrow> (\<exists>a b. s = a @ sub @ b)"
proof (induction s)
  case Nil
  then show ?case by auto
next
  case (Cons c cs)
  show ?case
  proof
    assume "str_includes (c # cs) sub"
    then consider "prefix sub (c # cs)" | "str_includes cs sub" by auto
    then show "\<exists>a b. c # cs = a @ sub @ b"
    proof cases
      case 1
      then obtain b where "c # cs = sub @ b" by (auto simp: prefix_def)
      then have "c # cs = [] @ sub @ b" by simp
      then show ?thesis by blast
    next
      case 2
      then obtain a b where "cs = a @ sub @ b" using Cons.IH by blast
      then have "c # cs = (c # a) @ sub @ b" by simp
      then show ?thesis by blast
    qed
  next
    assume "\<exists>a b. c # cs = a @ sub @ b"
    then obtain a b where ab: "c # cs = a @ sub @ b" by blast
    show "str_includes (c # cs) sub"
    proof (cases a)
      case Nil
      then have "prefix sub (c # cs)" using ab by (simp add: prefix_def)
      then show ?thesis by simp
    next
      case (Cons x a')
      then have "cs = a' @ sub @ b" using ab by simp
      then show ?thesis using Cons.IH by auto
    qed
  qed
qed

lemma of_char_lower_char:
  "(of_char (lower_char c) :: nat) =
     (if (65 \<le> (of_char c :: nat) \<and> (of_char c :: nat) \<le> 90) \<or>
         (192 \<le> (of_char c :: nat) \<and> (of_char c :: nat) \<le> 222 \<and> (of_char c :: nat) \<noteq> 215)
      then of_char c + 32 else of_char c)"
  by (auto simp: lower_char_def Let_def)

lemma char_eq_of_char: "c = d \<longleftrightarrow> (of_char c :: nat) = of_char d"
  by auto

lemma lower_char_quote [simp]: "lower_char c = CHR 0x22 \<longleftrightarrow> c = CHR 0x22"
  unfolding char_eq_of_char[of _ "CHR 0x22"] of_char_lower_char by auto

lemma lower_char_comma [simp]: "lower_char c = CHR '','' \<longleftrightarrow> c = CHR '',''"
  unfolding char_eq_of_char[of _ "CHR '',''"] of_char_lower_char by auto

lemma is_ws_lower_char [simp]: "is_ws (lower_char c) = is_ws c"
  unfolding is_ws_def of_char_lower_char by auto

lemma lower_char_idem [simp]: "lower_char (lower_char c) = lower_char c"
  unfolding char_eq_of_char[of "lower_char (lower_char c)"] of_char_lower_char by auto


lemma trimEnd_Cons:
  "trimEnd (x # xs) = (if list_all is_ws xs then (if is_ws x then [] else [x]) else x # trimEnd xs)"
  by (auto simp: trimEnd_def dropWhile_append list_all_iff)

lemma trimEnd_Nil [simp]: "trimEnd [] = []"
  by (simp add: trimEnd_def)

lemma trimStart_all: "list_all is_ws xs \<Longrightarrow> trimStart xs = []"
  by (simp add: trimStart_def list_all_iff)

lemma trimEnd_all: "list_all is_ws xs \<Longrightarrow> trimEnd xs = []"
  by (simp add: trimEnd_def list_all_iff)

lemma trimEnd_idem: "trimEnd (trimEnd xs) = trimEnd xs"
  by (simp add: trimEnd_def)

lemma trimStart_idem: "trimStart (trimStart xs) = trimStart xs"
  by (simp add: trimStart_def)

lemma trimStart_trimEnd: "trimStart (trimEnd xs) = trimEnd (trimStart xs)"
proof (induction xs)
  case Nil
  then show ?case by (simp add: trimStart_def)
next
  case (Cons x xs)
  show ?case
  proof (cases "is_ws x")
    case True
    then show ?thesis
      using Cons.IH by (auto simp: trimEnd_Cons trimStart_all trimEnd_all) (simp_all add: trimStart_def)
  next
    case False
    then show ?thesis
      by (auto simp: trimEnd_Cons) (simp_all add: trimStart_def trimEnd_Cons)
  qed
qed

lemma trim_idem: "trim (trim s) = trim s"
  by (simp add: trim_def trimStart_trimEnd trimEnd_idem trimStart_idem)

lemma trim_toLowerCase: "trim (toLowerCase s) = toLowerCase (trim s)"
  by (simp add: trim_def trimStart_def trimEnd_def toLowerCase_def dropWhile_map rev_map comp_def)

lemma toLowerCase_idem: "toLowerCase (toLowerCase s) = toLowerCase s"
  by (simp add: toLowerCase_def)

lemma toLowerCase_simps:
  "toLowerCase [] = []"
  "toLowerCase (c # cs) = lower_char c # toLowerCase cs"
  "toLowerCase (xs @ ys) = toLowerCase xs @ toLowerCase ys"
  by (simp_all add: toLowerCase_def)

lemma parseCSVLine_loop_lower:
  "parseCSVLine_loop (toLowerCase line) (map toLowerCase result) (toLowerCase current) q
     = map toLowerCase (parseCSVLine_loop line result current q)"
proof (induction line arbitrary: result current q)
  case Nil
  then show ?case by (simp add: trim_toLowerCase toLowerCase_simps)
next
  case (Cons c line)
  have step1: "parseCSVLine_loop (toLowerCase line) (map toLowerCase result @ [trim (toLowerCase current)]) [] q
      = map toLowerCase (parseCSVLine_loop line (result @ [trim current]) [] q)"
    using Cons.IH[of "result @ [trim current]" "[]" q] by (simp add: trim_toLowerCase toLowerCase_simps)
  have step2: "parseCSVLine_loop (toLowerCase line) (map toLowerCase result) (toLowerCase current @ [lower_char c]) q
      = map toLowerCase (parseCSVLine_loop line result (current @ [c]) q)"
    using Cons.IH[of result "current @ [c]" q] by (simp add: toLowerCase_simps)
  show ?case
    using step1 step2 Cons.IH[of result current "\<not> q"]
    by (cases q) (simp_all add: toLowerCase_simps)
qed

lemma parseCSVLine_lower: "parseCSVLine (toLowerCase line) = map toLowerCase (parseCSVLine line)"
  using parseCSVLine_loop_lower[of line "[]" "[]" False]
  by (simp add: parseCSVLine_def toLowerCase_simps)

lemma parseCSVLine_loop_trimmed:
  "list_all (\<lambda>f. trim f = f) result \<Longrightarrow>
   list_all (\<lambda>f. trim f = f) (parseCSVLine_loop line result current q)"
  by (induction line arbitrary: result current q) (auto simp: trim_idem)

lemma parseCSVLine_trimmed: "list_all (\<lambda>f. trim f = f) (parseCSVLine line)"
  by (simp add: parseCSVLine_def parseCSVLine_loop_trimmed)

lemma headers_eq:
  "map (\<lambda>h. toLowerCase (trim h)) (parseCSVLine (toLowerCase first)) = map toLowerCase (parseCSVLine first)"
proof -
  have "map trim (parseCSVLine first) = parseCSVLine first"
    using parseCSVLine_trimmed[of first] by (simp add: list_all_iff map_idI)
  then have "map (\<lambda>h. toLowerCase (trim h)) (parseCSVLine first) = map toLowerCase (parseCSVLine first)"
    by (metis (no_types, lifting) map_map comp_def map_eq_conv)
  then show ?thesis
    by (simp add: parseCSVLine_lower trim_toLowerCase toLowerCase_idem comp_def)
qed

lemma findIndex_Some_iff:
  "findIndex p xs = Some i \<longleftrightarrow> i < length xs \<and> p (xs ! i) \<and> (\<forall>j<i. \<not> p (xs ! j))"
proof (induction xs arbitrary: i)
  case Nil
  then show ?case by simp
next
  case (Cons x xs)
  show ?case
  proof (cases "p x")
    case True
    then show ?thesis by (cases i) auto
  next
    case False
    show ?thesis
    proof (cases i)
      case 0
      then show ?thesis using False by (auto split: option.splits)
    next
      case (Suc k)
      have "(\<forall>j<Suc k. \<not> p ((x # xs) ! j)) \<longleftrightarrow> (\<forall>j<k. \<not> p (xs ! j))"
        using False by (auto simp: less_Suc_eq_0_disj)
      then show ?thesis using False Suc Cons.IH[of k] by (auto split: option.splits)
    qed
  qed
qed

lemma columnMap_foldl:
  "foldl (\<lambda>m col. case findIndex (\<lambda>h. h = col) headers of None \<Rightarrow> m | Some index \<Rightarrow> m(col \<mapsto> index)) m0 cols c
     = (if c \<in> set cols then (case findIndex (\<lambda>h. h = c) headers of None \<Rightarrow> m0 c | Some index \<Rightarrow> Some index)
        else m0 c)"
  by (induction cols arbitrary: m0) (auto split: option.splits)


lemma detect_header_iff:
  "list_ex (\<lambda>col. str_includes (toLowerCase first) col) cols \<longleftrightarrow>
     (\<exists>c \<in> set cols. \<exists>a b. toLowerCase first = a @ c @ b)"
  by (simp add: list_ex_iff str_includes_iff)

lemma detect_startIndex:
  "startIndex (detectCSVFormat (first # others) cols) =
     (if (\<exists>c \<in> set cols. \<exists>a b. toLowerCase first = a @ c @ b) then 1 else 0)"
  using detect_header_iff[of first cols] by (simp add: detectCSVFormat_def Let_def)

lemma detect_columnMap:
  "columnMap (detectCSVFormat (first # others) cols) col =
     (if (\<exists>c \<in> set cols. \<exists>a b. toLowerCase first = a @ c @ b) \<and> col \<in> set cols
      then findIndex (\<lambda>h. h = col) (map toLowerCase (parseCSVLine first)) else None)"
  using detect_header_iff[of first cols]
  by (auto simp: detectCSVFormat_def Let_def headers_eq columnMap_foldl split: option.splits)

text \<open>
  C9. \<open>detectCSVFormat\<close> lower-cases the first line and treats it as a header exactly
  when some expected column name occurs in it as a substring. With a header it returns
  start index 1 and maps each expected column to the index of the first header field that
  equals it ignoring case, and to nothing when no field does; without a header (or
  without any line) it returns start index 0 and an empty column map. The expected column
  names are lower-case, as the function's documentation requires. In particular
  \<open>detect(["Name","PLA","PETG"], ["name"])\<close> is \<open>{startIndex: 1, columnMap: {name: 0}}\<close>
  and \<open>detect(["PLA","PETG"], ["name"])\<close> is \<open>{startIndex: 0, columnMap: {}}\<close>.
\<close>

theorem detectCSVFormat_header:
  assumes "list_all (\<lambda>c. toLowerCase c = c) cols"
  shows "detectCSVFormat [] cols = \<lparr>startIndex = 0, columnMap = Map.empty\<rparr>
    \<and> startIndex (detectCSVFormat (first # others) cols) =
        (if (\<exists>c \<in> set cols. \<exists>a b. toLowerCase first = a @ c @ b) then 1 else 0)
    \<and> (columnMap (detectCSVFormat (first # others) cols) col = Some i \<longleftrightarrow>
         (\<exists>c \<in> set cols. \<exists>a b. toLowerCase first = a @ c @ b) \<and> col \<in> set cols \<and>
         i < length (parseCSVLine first) \<and>
         toLowerCase (parseCSVLine first ! i) = toLowerCase col \<and>
         (\<forall>j<i. toLowerCase (parseCSVLine first ! j) \<noteq> toLowerCase col))
    \<and> ((\<forall>c \<in> set cols. \<forall>a b. toLowerCase first \<noteq> a @ c @ b) \<longrightarrow>
         columnMap (detectCSVFormat (first # others) cols) = Map.empty)
    \<and> detectCSVFormat [''Name'', ''PLA'', ''PETG''] [''name'']
         = \<lparr>startIndex = 1, columnMap = [''name'' \<mapsto> 0]\<rparr>
    \<and> detectCSVFormat [''PLA'', ''PETG''] [''name'']
         = \<lparr>startIndex = 0, columnMap = Map.empty\<rparr>"
proof -
  have a: "detectCSVFormat [] cols = \<lparr>startIndex = 0, columnMap = Map.empty\<rparr>"
    by (simp add: detectCSVFormat_def)
  have low: "col \<in> set cols \<Longrightarrow> toLowerCase col = col"
    using assms by (simp add: list_all_iff)
  have c: "columnMap (detectCSVFormat (first # others) cols) col = Some i \<longleftrightarrow>
         (\<exists>c \<in> set cols. \<exists>a b. toLowerCase first = a @ c @ b) \<and> col \<in> set cols \<and>
         i < length (parseCSVLine first) \<and>
         toLowerCase (parseCSVLine first ! i) = toLowerCase col \<and>
         (\<forall>j<i. toLowerCase (parseCSVLine first ! j) \<noteq> toLowerCase col)"
  proof (cases "(\<exists>c \<in> set cols. \<exists>a b. toLowerCase first = a @ c @ b) \<and> col \<in> set cols")
    case True
    then have lc: "toLowerCase col = col" using low by simp
    have "columnMap (detectCSVFormat (first # others) cols) col
            = findIndex (\<lambda>h. h = col) (map toLowerCase (parseCSVLine first))"
      using True by (simp add: detect_columnMap)
    then show ?thesis
      using True lc by (auto simp: findIndex_Some_iff)
  next
    case False
    then have "columnMap (detectCSVFormat (first # others) cols) col = None"
      using detect_columnMap[of first others cols col] by (simp only: if_False)
    then show ?thesis using False by auto
  qed
  have d: "(\<forall>c \<in> set cols. \<forall>a b. toLowerCase first \<noteq> a @ c @ b) \<longrightarrow>
         columnMap (detectCSVFormat (first # others) cols) = Map.empty"
  proof
    assume "\<forall>c \<in> set cols. \<forall>a b. toLowerCase first \<noteq> a @ c @ b"
    then have "\<not> (\<exists>c \<in> set cols. \<exists>a b. toLowerCase first = a @ c @ b)" by blast
    then show "columnMap (detectCSVFormat (first # others) cols) = Map.empty"
      by (simp add: fun_eq_iff detect_columnMap)
  qed
  have l1: "toLowerCase ''Name'' = ''name''" "toLowerCase ''name'' = ''name''"
    "toLowerCase ''PLA'' = ''pla''" "trim ''name'' = ''name''"
    by code_simp+
  have i1: "str_includes ''name'' ''name''" "\<not> str_includes ''pla'' ''name''"
    by code_simp+
  have p1: "parseCSVLine ''name'' = [''name'']"
    by code_simp
  have e1: "detectCSVFormat [''Name'', ''PLA'', ''PETG''] [''name'']
         = \<lparr>startIndex = 1, columnMap = [''name'' \<mapsto> 0]\<rparr>"
    by (simp add: detectCSVFormat_def Let_def l1 i1 p1)
  have e2: "detectCSVFormat [''PLA'', ''PETG''] [''name'']
         = \<lparr>startIndex = 0, columnMap = Map.empty\<rparr>"
    by (simp add: detectCSVFormat_def Let_def l1 i1)
  show ?thesis using a detect_startIndex[of first others cols] c d e1 e2 by blast
qed

theorem detectCSVFormat_header_witness:
  "list_all (\<lambda>c. toLowerCase c = c) [''name'', ''code'']
   \<and> startIndex (detectCSVFormat [''Code, NAME'', ''#fff,White''] [''name'', ''code'']) = 1
   \<and> columnMap (detectCSVFormat [''Code, NAME'', ''#fff,White''] [''name'', ''code'']) ''name'' = Some 1"
proof -
  have h: "list_all (\<lambda>c. toLowerCase c = c) [''name'', ''code'']"
    by code_simp
  have "list_ex (\<lambda>col. str_includes (toLowerCase ''Code, NAME'') col) [''name'', ''code'']"
    by code_simp
  then have ex: "\<exists>c \<in> set [''name'', ''code'']. \<exists>a b. toLowerCase ''Code, NAME'' = a @ c @ b"
    by (simp only: detect_header_iff)
  have p: "parseCSVLine ''Code, NAME'' = [''Code'', ''NAME'']"
    by code_simp
  have l: "toLowerCase ''Code'' \<noteq> ''name''" "toLowerCase ''NAME'' = ''name''"
    "toLowerCase ''name'' = ''name''"
    by code_simp+
  note t = detectCSVFormat_header[OF h, of "''Code, NAME''" "[''#fff,White'']" "''name''" 1]
  have s: "startIndex (detectCSVFormat [''Code, NAME'', ''#fff,White''] [''name'', ''code'']) = 1"
    using t ex by simp
  have m: "columnMap (detectCSVFormat [''Code, NAME'', ''#fff,White''] [''name'', ''code'']) ''name'' = Some 1"
    using t ex p l by simp
  show ?thesis using h s m by simp
qed

lemma double_quotes_none: "CHR 0x22 \<notin> set f \<Longrightarrow> double_quotes f = f"
  by (induction f) (auto simp: double_quotes_def)

lemma escapeCsvField_string:
  "CHR 0x22 \<notin> set f \<Longrightarrow>
   escapeCsvField nts (JStr f) =
     (if CHR '','' \<in> set f \<or> CHR 0x0A \<in> set f then [CHR 0x22] @ f @ [CHR 0x22] else f)"
  by (simp add: escapeCsvField_def double_quotes_none)

lemma parseCSVLine_loop_plain:
  "CHR 0x22 \<notin> set f \<Longrightarrow> q \<or> CHR '','' \<notin> set f \<Longrightarrow>
   parseCSVLine_loop (f @ rest) res cur q = parseCSVLine_loop rest res (cur @ f) q"
  by (induction f arbitrary: cur) auto

lemma parseCSVLine_loop_escaped:
  assumes "CHR 0x22 \<notin> set f"
  shows "parseCSVLine_loop (escapeCsvField nts (JStr f) @ rest) res [] False
           = parseCSVLine_loop rest res f False"
proof (cases "CHR '','' \<in> set f \<or> CHR 0x0A \<in> set f")
  case True
  have "parseCSVLine_loop (f @ CHR 0x22 # rest) res [] True
          = parseCSVLine_loop (CHR 0x22 # rest) res ([] @ f) True"
    using assms by (intro parseCSVLine_loop_plain) simp_all
  then show ?thesis
    using True assms by (simp add: escapeCsvField_string)
next
  case False
  have "parseCSVLine_loop (f @ rest) res [] False = parseCSVLine_loop rest res ([] @ f) False"
    using False assms by (intro parseCSVLine_loop_plain) simp_all
  then show ?thesis
    using False assms by (simp add: escapeCsvField_string)
qed

lemma parseCSVLine_loop_join:
  "flds \<noteq> [] \<Longrightarrow> list_all (\<lambda>f. CHR 0x22 \<notin> set f \<and> trim f = f) flds \<Longrightarrow>
   parseCSVLine_loop (join '','' (map (\<lambda>f. escapeCsvField nts (JStr f)) flds)) res [] False
     = res @ flds"
proof (induction flds arbitrary: res)
  case Nil
  then show ?case by simp
next
  case (Cons f fs)
  have f: "CHR 0x22 \<notin> set f" "trim f = f" using Cons.prems by simp_all
  show ?case
  proof (cases fs)
    case Nil
    then show ?thesis
      using parseCSVLine_loop_escaped[OF f(1), of nts "[]" res] f by simp
  next
    case (Cons g gs)
    have "parseCSVLine_loop (join '','' (map (\<lambda>f. escapeCsvField nts (JStr f)) fs)) (res @ [f]) [] False
            = (res @ [f]) @ fs"
      using Cons Cons.IH[of "res @ [f]"] Cons.prems by simp
    then show ?thesis
      using Cons f
        parseCSVLine_loop_escaped[OF f(1), of nts
          "'','' @ join '','' (map (\<lambda>f. escapeCsvField nts (JStr f)) fs)" res]
      by simp
  qed
qed

text \<open>
  C6. Round trip. For a non-empty list of string fields, none of which contains a quote
  character and each of which has no white space at either end, joining the escaped
  fields with commas and parsing the line gives the fields back. (The parser trims every
  field, and parses the empty line as one empty field.)
\<close>

theorem csv_round_trip:
  assumes "flds \<noteq> []"
    and "list_all (\<lambda>f. CHR 0x22 \<notin> set f \<and> trim f = f) flds"
  shows "parseCSVLine (join '','' (map (\<lambda>f. escapeCsvField nts (JStr f)) flds)) = flds"
  using parseCSVLine_loop_join[OF assms, of nts "[]"] by (simp add: parseCSVLine_def)

theorem csv_round_trip_witness:
  "[''a,b'', ''c d'', ''''] \<noteq> []
   \<and> list_all (\<lambda>f. CHR 0x22 \<notin> set f \<and> trim f = f) [''a,b'', ''c d'', '''']
   \<and> parseCSVLine (join '','' (map (\<lambda>f. escapeCsvField show_count (JStr f)) [''a,b'', ''c d'', '''']))
       = [''a,b'', ''c d'', '''']"
proof -
  have h: "list_all (\<lambda>f. CHR 0x22 \<notin> set f \<and> trim f = f) [''a,b'', ''c d'', '''']"
    by code_simp
  show ?thesis
    using h csv_round_trip[of "[''a,b'', ''c d'', '''']" show_count] by simp
qed

text \<open>
  Without the condition on white space the round trip fails: the field \<open>" a"\<close> needs no
  quoting, and the parser trims it to \<open>"a"\<close>.
\<close>

theorem csv_round_trip_untrimmed:
  "parseCSVLine (join '','' (map (\<lambda>f. escapeCsvField show_count (JStr f)) ['' a''])) \<noteq> ['' a'']"
  by code_simp

section \<open>Batch delete: results\<close>

lemma mem_delete_owned:
  "list_ex (\<lambda>f. fil_id f = j \<and> fil_userId f = uid)
     (filter (\<lambda>f. \<not> (fil_id f = i \<and> fil_userId f = uid)) rows)
   \<longleftrightarrow> list_ex (\<lambda>f. fil_id f = j \<and> fil_userId f = uid) rows \<and> j \<noteq> i"
  by (auto simp: list_ex_iff)

lemma card_owned_Cons:
  "card {j \<in> set (i # ids). P j} = (if P i then 1 else 0) + card {j \<in> set ids. P j \<and> j \<noteq> i}"
proof -
  let ?A = "{j \<in> set ids. P j \<and> j \<noteq> i}"
  have fin: "finite ?A" by simp
  have ni: "i \<notin> ?A" by simp
  show ?thesis
  proof (cases "P i")
    case True
    then have "{j \<in> set (i # ids). P j} = insert i ?A" by auto
    then show ?thesis using True fin ni by simp
  next
    case False
    then have "{j \<in> set (i # ids). P j} = ?A" by auto
    then show ?thesis using False by simp
  qed
qed

lemma delete_loop_mem_step:
  "delete_loop mem_deleteFilament uid (i # ids) c rows =
     delete_loop mem_deleteFilament uid ids
       (if list_ex (\<lambda>f. fil_id f = i \<and> fil_userId f = uid) rows then Suc c else c)
       (filter (\<lambda>f. \<not> (fil_id f = i \<and> fil_userId f = uid)) rows)"
  by (simp add: mem_deleteFilament_def)

lemma delete_loop_mem:
  "delete_loop mem_deleteFilament uid ids c rows =
     (c + card {i \<in> set ids. list_ex (\<lambda>f. fil_id f = i \<and> fil_userId f = uid) rows},
      filter (\<lambda>f. \<not> (fil_id f \<in> set ids \<and> fil_userId f = uid)) rows)"
proof (induction ids arbitrary: c rows)
  case Nil
  then show ?case by simp
next
  case (Cons i ids)
  let ?own = "\<lambda>rs j. list_ex (\<lambda>f. fil_id f = j \<and> fil_userId f = uid) rs"
  let ?rows' = "filter (\<lambda>f. \<not> (fil_id f = i \<and> fil_userId f = uid)) rows"
  let ?c' = "if ?own rows i then Suc c else c"
  have flt: "filter (\<lambda>f. \<not> (fil_id f \<in> set ids \<and> fil_userId f = uid)) ?rows'
           = filter (\<lambda>f. \<not> (fil_id f \<in> set (i # ids) \<and> fil_userId f = uid)) rows"
    by (auto intro: filter_cong)
  have own: "{j \<in> set ids. ?own ?rows' j} = {j \<in> set ids. ?own rows j \<and> j \<noteq> i}"
    by (simp only: mem_delete_owned)
  have cnt: "?c' + card {j \<in> set ids. ?own ?rows' j} = c + card {j \<in> set (i # ids). ?own rows j}"
    unfolding own card_owned_Cons[of i ids "?own rows"] by simp
  have "delete_loop mem_deleteFilament uid (i # ids) c rows
          = delete_loop mem_deleteFilament uid ids ?c' ?rows'"
    by (rule delete_loop_mem_step)
  also have "\<dots> = (?c' + card {j \<in> set ids. ?own ?rows' j},
                   filter (\<lambda>f. \<not> (fil_id f \<in> set ids \<and> fil_userId f = uid)) ?rows')"
    by (rule Cons.IH)
  finally show ?case unfolding cnt flt .
qed

lemma validateIds_append: "validateIds (xs @ ys) = validateIds xs @ validateIds ys"
  by (simp add: validateIds_def)

lemma batch_delete_mem:
  assumes "validateBatchIds xs \<noteq> []"
  shows "batch_delete mem_deleteFilament uid (JArr xs) rows =
     (let n = card {i \<in> set (validateBatchIds xs).
                      list_ex (\<lambda>f. fil_id f = i \<and> fil_userId f = uid) rows}
      in (\<lparr>resp_status = 200,
           resp_body =
             [(''message'', JStr (''Successfully deleted '' @ show_nat n @ '' filaments'')),
              (''deletedCount'', JNum (Fin (of_nat n)))]\<rparr>,
          filter (\<lambda>f. \<not> (fil_id f \<in> set (validateBatchIds xs) \<and> fil_userId f = uid)) rows))"
proof -
  have "xs \<noteq> []" using assms by (auto simp: validateBatchIds_def validateIds_def)
  then show ?thesis
    using assms by (simp add: batch_delete_def Let_def delete_loop_mem)
qed

lemma batch_delete_absent_id:
  assumes v: "validateBatchIds xs \<noteq> []" and x: "\<not> list_ex (\<lambda>f. fil_id f = x) rows"
  shows "batch_delete mem_deleteFilament uid (JArr (xs @ [JNum x])) rows
       = batch_delete mem_deleteFilament uid (JArr xs) rows"
proof -
  have ids: "validateBatchIds (xs @ [JNum x]) = validateBatchIds xs @ [x]"
    by (simp add: validateBatchIds_def validateIds_append) (simp add: validateIds_def)
  have nx: "\<not> list_ex (\<lambda>f. fil_id f = x \<and> fil_userId f = uid) rows"
    using x by (auto simp: list_ex_iff)
  have S: "{i \<in> set (validateBatchIds xs @ [x]). list_ex (\<lambda>f. fil_id f = i \<and> fil_userId f = uid) rows}
         = {i \<in> set (validateBatchIds xs). list_ex (\<lambda>f. fil_id f = i \<and> fil_userId f = uid) rows}"
    using nx by auto
  have F: "filter (\<lambda>f. \<not> (fil_id f \<in> set (validateBatchIds xs @ [x]) \<and> fil_userId f = uid)) rows
         = filter (\<lambda>f. \<not> (fil_id f \<in> set (validateBatchIds xs) \<and> fil_userId f = uid)) rows"
    using x by (auto simp: list_ex_iff intro: filter_cong)
  have v': "validateBatchIds (xs @ [JNum x]) \<noteq> []" using ids by simp
  show ?thesis
    unfolding batch_delete_mem[OF v] batch_delete_mem[OF v'] ids S F ..
qed

lemma batch_delete_status:
  assumes "validateBatchIds xs \<noteq> []"
  shows "resp_status (fst (batch_delete deleteFilament uid (JArr xs) s)) = 200"
proof -
  have "xs \<noteq> []" using assms by (auto simp: validateBatchIds_def validateIds_def)
  then show ?thesis
    using assms by (simp add: batch_delete_def Let_def split: prod.splits)
qed

text \<open>
  C5. Batch delete. With filaments 1 and 2 stored for the caller and no filament 999,
  the request with ids \<open>[1, 2, 999]\<close> is answered 200 with \<open>deletedCount = 2\<close>. In
  general, whenever the id list holds a valid id, the answer is 200, \<open>deletedCount\<close> is
  the number of requested ids that name a stored filament of the caller, and exactly those
  rows are removed; an id that names no stored filament changes neither the count nor the
  answer nor the table. The answer is 200 whatever the repository does, also when a
  delete throws.
\<close>

theorem batch_delete_missing_id:
  assumes "validateBatchIds xs \<noteq> []"
  shows "batch_delete mem_deleteFilament uid (JArr xs) rows =
     (let n = card {i \<in> set (validateBatchIds xs).
                      list_ex (\<lambda>f. fil_id f = i \<and> fil_userId f = uid) rows}
      in (\<lparr>resp_status = 200,
           resp_body =
             [(''message'', JStr (''Successfully deleted '' @ show_nat n @ '' filaments'')),
              (''deletedCount'', JNum (Fin (of_nat n)))]\<rparr>,
          filter (\<lambda>f. \<not> (fil_id f \<in> set (validateBatchIds xs) \<and> fil_userId f = uid)) rows))
   \<and> (\<not> list_ex (\<lambda>f. fil_id f = x) rows \<longrightarrow>
        batch_delete mem_deleteFilament uid (JArr (xs @ [JNum x])) rows
          = batch_delete mem_deleteFilament uid (JArr xs) rows)
   \<and> resp_status (fst (batch_delete deleteFilament caller (JArr xs) s)) = 200
   \<and> batch_delete mem_deleteFilament (Fin 7)
           (JArr [JNum (Fin 1), JNum (Fin 2), JNum (Fin 999)])
           [\<lparr>fil_id = Fin 1, fil_userId = Fin 7, fil_name = ''PLA black''\<rparr>,
            \<lparr>fil_id = Fin 2, fil_userId = Fin 7, fil_name = ''PETG white''\<rparr>]
       = (\<lparr>resp_status = 200,
            resp_body = [(''message'', JStr ''Successfully deleted 2 filaments''),
                         (''deletedCount'', JNum (Fin 2))]\<rparr>, [])"
proof -
  have e: "batch_delete mem_deleteFilament (Fin 7)
           (JArr [JNum (Fin 1), JNum (Fin 2), JNum (Fin 999)])
           [\<lparr>fil_id = Fin 1, fil_userId = Fin 7, fil_name = ''PLA black''\<rparr>,
            \<lparr>fil_id = Fin 2, fil_userId = Fin 7, fil_name = ''PETG white''\<rparr>]
       = (\<lparr>resp_status = 200,
            resp_body = [(''message'', JStr ''Successfully deleted 2 filaments''),
                         (''deletedCount'', JNum (Fin 2))]\<rparr>, [])"
    by code_simp
  show ?thesis
    using batch_delete_mem[OF assms, of uid rows] batch_delete_absent_id[OF assms, of x rows uid]
      batch_delete_status[OF assms, of deleteFilament caller s] e
    by blast
qed

theorem batch_delete_missing_id_witness:
  "validateBatchIds [JNum (Fin 1), JStr ''2''] \<noteq> []
   \<and> batch_delete mem_deleteFilament (Fin 7) (JArr ([JNum (Fin 1), JStr ''2''] @ [JNum (Fin 999)]))
        [\<lparr>fil_id = Fin 1, fil_userId = Fin 7, fil_name = ''PLA black''\<rparr>,
         \<lparr>fil_id = Fin 2, fil_userId = Fin 7, fil_name = ''PETG white''\<rparr>]
     = batch_delete mem_deleteFilament (Fin 7) (JArr [JNum (Fin 1), JStr ''2''])
        [\<lparr>fil_id = Fin 1, fil_userId = Fin 7, fil_name = ''PLA black''\<rparr>,
         \<lparr>fil_id = Fin 2, fil_userId = Fin 7, fil_name = ''PETG white''\<rparr>]"
proof -
  have h: "validateBatchIds [JNum (Fin 1), JStr ''2''] \<noteq> []"
    by code_simp
  have a: "\<not> list_ex (\<lambda>f. fil_id f = Fin 999)
        [\<lparr>fil_id = Fin 1, fil_userId = Fin 7, fil_name = ''PLA black''\<rparr>,
         \<lparr>fil_id = Fin 2, fil_userId = Fin 7, fil_name = ''PETG white''\<rparr>]"
    by code_simp
  show ?thesis
    using h a batch_delete_missing_id[OF h, where uid = "Fin 7" and x = "Fin 999"
        and rows = "[\<lparr>fil_id = Fin 1, fil_userId = Fin 7, fil_name = ''PLA black''\<rparr>,
          \<lparr>fil_id = Fin 2, fil_userId = Fin 7, fil_name = ''PETG white''\<rparr>]"
        and deleteFilament = mem_deleteFilament and caller = "Fin 7"
        and s = "[] :: filament list"]
    by blast
qed

section \<open>Color import: results\<close>

lemma set_trim: "set (trim s) \<subseteq> set s"
proof -
  have "set (trimEnd (trimStart s)) \<subseteq> set (trimStart s)"
    unfolding trimEnd_def using set_dropWhileD by fastforce
  moreover have "set (trimStart s) \<subseteq> set s"
    unfolding trimStart_def using set_dropWhileD by fastforce
  ultimately show ?thesis by (auto simp: trim_def)
qed

lemma parseCSVLine_loop_no_quote:
  "list_all (\<lambda>f. CHR 0x22 \<notin> set f) result \<Longrightarrow> CHR 0x22 \<notin> set current \<Longrightarrow>
   list_all (\<lambda>f. CHR 0x22 \<notin> set f) (parseCSVLine_loop line result current q)"
proof (induction line arbitrary: result current q)
  case Nil
  then show ?case using set_trim[of current] by auto
next
  case (Cons c line)
  have t: "CHR 0x22 \<notin> set (trim current)" using Cons.prems(2) set_trim[of current] by auto
  show ?case
    using Cons.IH[of result current "\<not> q"] Cons.IH[of "result @ [trim current]" "[]" q]
      Cons.IH[of result "current @ [c]" q] Cons.prems t
    by auto
qed

lemma parseCSVLine_no_quote: "list_all (\<lambda>f. CHR 0x22 \<notin> set f) (parseCSVLine line)"
  by (simp add: parseCSVLine_def parseCSVLine_loop_no_quote)

lemma parsed_field_clean:
  assumes "v \<in> set (parseCSVLine line)"
  shows "strip_quotes (trim v) = v"
proof -
  have "trim v = v" using assms parseCSVLine_trimmed[of line] by (simp add: list_all_iff)
  moreover have "CHR 0x22 \<notin> set v" using assms parseCSVLine_no_quote[of line] by (simp add: list_all_iff)
  ultimately show ?thesis by (auto simp: strip_quotes_def filter_id_conv)
qed

lemma color_row_known:
  assumes "trim raw \<noteq> []" and "color_name_code (parseCSVLine (trim raw)) = Some (nm, code0)"
    and "nm \<noteq> []" and "code0 \<noteq> []"
  shows "color_row index validate create raw rs = color_outcome index validate create nm (with_hash code0) rs"
  using assms by (simp add: color_row_def color_outcome_def Let_def)

text \<open>
  C8. Color import, three-field form. A row whose parsed values are a brand, a color
  name and a non-empty code (and possibly more) is handled under the display name
  \<open><colorName> (<brand>)\<close> and under the code with a \<open>#\<close> put in front unless it
  already starts with one; these are the name and code that duplicate detection and
  schema validation see. A two-field row keeps its name and has its code prefixed in the
  same way. Importing \<open>Bambu Lab,Black,000000\<close> into an empty table, with a
  schema that accepts the draft, creates the color \<open>Black (Bambu Lab)\<close> with code
  \<open>#000000\<close>.
\<close>

theorem color_row_synthesized:
  assumes "trim raw \<noteq> []"
    and "parseCSVLine (trim raw) = brand # cname # hex # rest"
    and "hex \<noteq> []"
  shows "color_row index validate create raw rs =
           color_outcome index validate create (cname @ '' ('' @ brand @ '')'')
             (if hd hex = CHR ''#'' then hex else CHR ''#'' # hex) rs
   \<and> (trim raw2 \<noteq> [] \<and> parseCSVLine (trim raw2) = [nm2, code2] \<and> nm2 \<noteq> [] \<and> code2 \<noteq> [] \<longrightarrow>
        color_row index validate create raw2 rs =
          color_outcome index validate create nm2
            (if hd code2 = CHR ''#'' then code2 else CHR ''#'' # code2) rs)
   \<and> colors_import mem_list accept mem_create ''Bambu Lab,Black,000000'' [] =
       (Inr \<lparr>created = 1, duplicates = 0, errors = 0\<rparr>,
        [\<lparr>color_name = ''Black (Bambu Lab)'', color_code = ''#000000''\<rparr>])"
proof -
  let ?vs = "parseCSVLine (trim raw)"
  have two: "color_row index validate create raw2 rs =
          color_outcome index validate create nm2
            (if hd code2 = CHR ''#'' then code2 else CHR ''#'' # code2) rs"
    if h: "trim raw2 \<noteq> []" "parseCSVLine (trim raw2) = [nm2, code2]" "nm2 \<noteq> []" "code2 \<noteq> []"
  proof -
    have cl2: "strip_quotes (trim nm2) = nm2" "strip_quotes (trim code2) = code2"
      using h(2) parsed_field_clean[of _ "trim raw2"] by simp_all
    have nc2: "color_name_code (parseCSVLine (trim raw2)) = Some (nm2, code2)"
      using h(2) cl2 by (simp add: color_name_code_def)
    have wh2: "with_hash code2 = (if hd code2 = CHR ''#'' then code2 else CHR ''#'' # code2)"
      using h(4) by (cases code2) (simp_all add: with_hash_def startsWith_def)
    show ?thesis
      using color_row_known[OF h(1) nc2 h(3) h(4), of index validate create rs] wh2 by simp
  qed
  have cl: "strip_quotes (trim brand) = brand" "strip_quotes (trim cname) = cname"
    "strip_quotes (trim hex) = hex"
    using assms(2) parsed_field_clean[of _ "trim raw"] by simp_all
  have nc: "color_name_code ?vs = Some (cname @ '' ('' @ brand @ '')'', hex)"
    using assms(2) cl by (simp add: color_name_code_def Let_def)
  have wh: "with_hash hex = (if hd hex = CHR ''#'' then hex else CHR ''#'' # hex)"
    using assms(3) by (cases hex) (simp_all add: with_hash_def startsWith_def)
  have a: "color_row index validate create raw rs =
           color_outcome index validate create (cname @ '' ('' @ brand @ '')'')
             (if hd hex = CHR ''#'' then hex else CHR ''#'' # hex) rs"
    using color_row_known[OF assms(1) nc _ assms(3), of index validate create rs] wh by simp
  have b: "colors_import mem_list accept mem_create ''Bambu Lab,Black,000000'' [] =
       (Inr \<lparr>created = 1, duplicates = 0, errors = 0\<rparr>,
        [\<lparr>color_name = ''Black (Bambu Lab)'', color_code = ''#000000''\<rparr>])"
    by code_simp
  show ?thesis using a b two by blast
qed

theorem color_row_synthesized_witness:
  "trim ''Bambu Lab,Black,000000'' \<noteq> []
   \<and> parseCSVLine (trim ''Bambu Lab,Black,000000'') = [''Bambu Lab'', ''Black'', ''000000'']
   \<and> ''000000'' \<noteq> []
   \<and> color_row [] accept mem_create ''Bambu Lab,Black,000000'' (no_results, []) =
       color_outcome [] accept mem_create ''Black (Bambu Lab)'' ''#000000'' (no_results, [])
   \<and> color_outcome [] accept mem_create ''Black (Bambu Lab)'' ''#000000'' (no_results, []) =
       (\<lparr>created = 1, duplicates = 0, errors = 0\<rparr>,
        [\<lparr>color_name = ''Black (Bambu Lab)'', color_code = ''#000000''\<rparr>])
   \<and> parseCSVLine (trim ''White,fff'') = [''White'', ''fff'']
   \<and> color_row [] accept mem_create ''White,fff'' (no_results, []) =
       color_outcome [] accept mem_create ''White'' ''#fff'' (no_results, [])"
proof -
  have g1: "trim ''White,fff'' \<noteq> []" by code_simp
  have g2: "parseCSVLine (trim ''White,fff'') = [''White'', ''fff'']" by code_simp
  have h1: "trim ''Bambu Lab,Black,000000'' \<noteq> []" by code_simp
  have h2: "parseCSVLine (trim ''Bambu Lab,Black,000000'') = [''Bambu Lab'', ''Black'', ''000000'']"
    by code_simp
  have h3: "''000000'' \<noteq> []" by simp
  have o: "color_outcome [] accept mem_create ''Black (Bambu Lab)'' ''#000000'' (no_results, []) =
       (\<lparr>created = 1, duplicates = 0, errors = 0\<rparr>,
        [\<lparr>color_name = ''Black (Bambu Lab)'', color_code = ''#000000''\<rparr>])"
    by code_simp
  note t = color_row_synthesized[OF h1 h2 h3, where index = "[]" and validate = accept
      and create = mem_create and rs = "(no_results, [])" and ?raw2.0 = "''White,fff''"
      and ?nm2.0 = "''White''" and ?code2.0 = "''fff''"]
  have w: "color_row [] accept mem_create ''White,fff'' (no_results, []) =
       color_outcome [] accept mem_create ''White'' ''#fff'' (no_results, [])"
    using t g1 g2 by simp
  show ?thesis
    using h1 h2 o g2 w t by simp
qed

section \<open>Import counts: results\<close>

lemma accounted_inc [simp]:
  "accounted (inc_created r) = Suc (accounted r)"
  "accounted (inc_duplicates r) = Suc (accounted r)"
  "accounted (inc_errors r) = Suc (accounted r)"
  by (simp_all add: accounted_def inc_created_def inc_duplicates_def inc_errors_def)

lemma accounted_no_results [simp]: "accounted no_results = 0"
  by (simp add: accounted_def no_results_def)








lemma data_rows_length: "length (filter (\<lambda>raw. trim raw \<noteq> []) (drop n rows)) = length (data_rows n rows)"
  by (simp add: data_rows_def)






lemma parseCSVFile_eq:
  "parseCSVFile csvData = filter (\<lambda>line. length (trim line) > 0) (split_on (CHR 0x0A) csvData)"
  by (simp add: parseCSVFile_def)





section \<open>Repeated rows within one import: results\<close>

lemma duplicates_inc [simp]:
  "duplicates (inc_created r) = duplicates r"
  "duplicates (inc_errors r) = duplicates r"
  "duplicates (inc_duplicates r) = Suc (duplicates r)"
  by (simp_all add: inc_created_def inc_errors_def inc_duplicates_def)

lemma color_row_empty_index:
  "duplicates (fst (color_row [] validate create raw rs)) = duplicates (fst rs)"
  by (auto simp: color_row_def Let_def split: option.splits sum.splits prod.splits)

lemma color_rows_empty_index:
  "duplicates (fst (foldl (\<lambda>rs raw. color_row [] validate create raw rs) rs0 rows))
     = duplicates (fst rs0)"
  by (induction rows arbitrary: rs0) (simp_all add: color_row_empty_index)

text \<open>
  C2. The color and filament imports read the stored records once, before the loop,
  and never add a created row to that index. Two equal rows imported into an empty table
  are both created, and the second is not counted as a duplicate; with no color stored at
  the start, no row of a color import is ever counted as a duplicate, whatever the rows,
  the schema and the repository do.
\<close>

theorem repeated_row_created_twice:
  "colors_import mem_list accept mem_create (''Red,#ff0000'' @ [CHR 0x0A] @ ''Red,#ff0000'') []
     = (Inr \<lparr>created = 2, duplicates = 0, errors = 0\<rparr>,
        [\<lparr>color_name = ''Red'', color_code = ''#ff0000''\<rparr>,
         \<lparr>color_name = ''Red'', color_code = ''#ff0000''\<rparr>])
   \<and> fst (filaments_import mem_getFilaments mem_createFilament (Fin 7)
           (''PLA Black,Acme,PLA,Black'' @ [CHR 0x0A] @ ''PLA Black,Acme,PLA,Black'') [])
     = Inr \<lparr>created = 2, duplicates = 0, errors = 0\<rparr>
   \<and> (case colors_import (\<lambda>s. Inr []) validate create csvData s of
        (Inl e, s') \<Rightarrow> False
      | (Inr r, s') \<Rightarrow> duplicates r = 0)"
proof -
  have a: "colors_import mem_list accept mem_create (''Red,#ff0000'' @ [CHR 0x0A] @ ''Red,#ff0000'') []
     = (Inr \<lparr>created = 2, duplicates = 0, errors = 0\<rparr>,
        [\<lparr>color_name = ''Red'', color_code = ''#ff0000''\<rparr>,
         \<lparr>color_name = ''Red'', color_code = ''#ff0000''\<rparr>])"
    by code_simp
  have b: "fst (filaments_import mem_getFilaments mem_createFilament (Fin 7)
           (''PLA Black,Acme,PLA,Black'' @ [CHR 0x0A] @ ''PLA Black,Acme,PLA,Black'') [])
     = Inr \<lparr>created = 2, duplicates = 0, errors = 0\<rparr>"
    by code_simp
  let ?rows = "drop (keyword_start [''name'', ''brand''] (split_on (CHR 0x0A) csvData))
                 (split_on (CHR 0x0A) csvData)"
  obtain r s' where f: "foldl (\<lambda>rs raw. color_row [] validate create raw rs) (no_results, s) ?rows = (r, s')"
    by (cases "foldl (\<lambda>rs raw. color_row [] validate create raw rs) (no_results, s) ?rows")
  have "duplicates r = 0"
    using color_rows_empty_index[of validate create "(no_results, s)" ?rows] f
    by (simp add: no_results_def)
  then have c: "(case colors_import (\<lambda>s. Inr []) validate create csvData s of
        (Inl e, s') \<Rightarrow> False
      | (Inr r, s') \<Rightarrow> duplicates r = 0)"
    using f by (simp add: colors_import_def Let_def)
  show ?thesis using a b c by simp
qed


text \<open>
  The manufacturer import, which lists the stored records afresh for every row, does
  count the second of two equal rows as a duplicate.
\<close>

lemma manufacturers_import_repeated_row:
  "manufacturers_import mem_list accept mem_create (''Acme'' @ [CHR 0x0A] @ ''acme'') []
     = (\<lparr>created = 1, duplicates = 1, errors = 0\<rparr>, [''Acme''])"
  by code_simp

section \<open>Partial-field patches: results\<close>
























end
